theory Spec2Isabelle
  imports Complex_Main "HOL-Library.Word"
begin

section \<open>The inference pipeline of backend/api/main.py\<close>

text \<open>
  The service decodes an uploaded image with PIL, resizes it with TensorFlow, runs a Keras
  model loaded at import time and reports the class with the largest score. The functions
  \<open>read_file_as_image\<close>, \<open>preprocess_image\<close> and \<open>predict\<close> are embedded as they are written.
  Every exception a call can raise is a value \<open>Inl e\<close> of the result type; none of the three
  functions has a \<open>try\<close>, so an exception always leaves through the caller.

  Two things the module reads from outside are parameters of the embedding: the parser of
  image files (\<open>Image.open\<close> with the pixel decoding it triggers) and the loaded model
  (\<open>MODEL.predict\<close>). The library calls with a small documented behaviour
  (\<open>Image.convert\<close>, \<open>np.array\<close>, \<open>tf.image.resize\<close>, \<open>np.expand_dims\<close>, \<open>np.argmax\<close>,
  \<open>np.max\<close>, list indexing, \<open>str\<close> of a tuple) are written out. Samples of float arrays are
  modelled as real numbers: rounding to 32 bits and NaN are outside the model. The debug
  \<open>print\<close> calls have no effect on the result and are left out.

  The repository's second file, api/main.py, is an earlier stub of the same service: its
  \<open>read_file_as_image\<close> names \<open>Images\<close> and \<open>BytesIO\<close> without importing them and its
  \<open>predict\<close> returns nothing. Nothing below depends on it.
\<close>

subsection \<open>Exceptions\<close>

datatype exn =
    UnidentifiedImageError
  | InvalidArgumentError
  | ValueError
  | IndexError
  | AxisError
  | OtherError string

definition try_bind :: "exn + 'a \<Rightarrow> ('a \<Rightarrow> exn + 'b) \<Rightarrow> exn + 'b" where
  "try_bind r f = (case r of Inl e \<Rightarrow> Inl e | Inr v \<Rightarrow> f v)"

text \<open>Python's \<open>xs[i]\<close> for a list and an index that is not negative.\<close>

definition getitem :: "'a list \<Rightarrow> nat \<Rightarrow> exn + 'a" where
  "getitem xs i = (if i < length xs then Inr (xs ! i) else Inl IndexError)"

subsection \<open>Reductions of numpy over a one-dimensional array\<close>

text \<open>
  \<open>np.argmax\<close> scans the array once, keeping the largest value seen so far and its index;
  a later element replaces it only when it is strictly larger. An empty array raises
  ValueError, for \<open>np.argmax\<close> and for \<open>np.max\<close>.
\<close>

fun argmax_loop :: "real \<Rightarrow> nat \<Rightarrow> nat \<Rightarrow> real list \<Rightarrow> nat" where
  "argmax_loop mp max_ind i [] = max_ind"
| "argmax_loop mp max_ind i (x # xs) =
     (if mp < x then argmax_loop x i (Suc i) xs else argmax_loop mp max_ind (Suc i) xs)"

definition np_argmax :: "real list \<Rightarrow> exn + nat" where
  "np_argmax a = (case a of [] \<Rightarrow> Inl ValueError | x # xs \<Rightarrow> Inr (argmax_loop x 0 1 xs))"

definition np_max :: "real list \<Rightarrow> exn + real" where
  "np_max a = (case a of [] \<Rightarrow> Inl ValueError | x # xs \<Rightarrow> Inr (fold max xs x))"

subsection \<open>Arrays\<close>

datatype dtype = UInt8 | Float32

text \<open>
  An array is its shape, its element type and its samples by index. Only the samples at
  indices inside the shape belong to the array.
\<close>

record ndarray =
  shape :: "nat list"
  dtype :: dtype
  item :: "nat list \<Rightarrow> real"

definition valid_index :: "nat list \<Rightarrow> nat list \<Rightarrow> bool" where
  "valid_index shp idx = list_all2 (<) idx shp"

text \<open>\<open>np.expand_dims(a, axis)\<close> for an axis that is not negative.\<close>

definition np_expand_dims :: "ndarray \<Rightarrow> nat \<Rightarrow> exn + ndarray" where
  "np_expand_dims a axis =
     (if length (shape a) < axis then Inl AxisError
      else Inr \<lparr>shape = take axis (shape a) @ [1] @ drop axis (shape a),
                dtype = dtype a,
                item = (\<lambda>idx. item a (take axis idx @ drop (Suc axis) idx))\<rparr>)"

text \<open>\<open>str\<close> of a tuple of integers, as in \<open>str(image.shape)\<close>.\<close>

definition digit :: "nat \<Rightarrow> char" where
  "digit d = ''0123456789'' ! d"

fun str_nat :: "nat \<Rightarrow> string" where
  "str_nat n = (if n < 10 then [digit n] else str_nat (n div 10) @ [digit (n mod 10)])"

fun join_comma :: "string list \<Rightarrow> string" where
  "join_comma [] = []"
| "join_comma [s] = s"
| "join_comma (s # t # ts) = s @ '', '' @ join_comma (t # ts)"

definition str_tuple :: "nat list \<Rightarrow> string" where
  "str_tuple t =
     (case t of
        [n] \<Rightarrow> ''('' @ str_nat n @ '',)''
      | _ \<Rightarrow> ''('' @ join_comma (map str_nat t) @ '')'')"

subsection \<open>PIL images\<close>

text \<open>
  An opened image has a size and 8-bit pixels in one of the modes L (grey), LA (grey with
  alpha), RGB and RGBA; the pixel at column \<open>x\<close> and row \<open>y\<close> is \<open>f x y\<close>. The palette,
  bilevel, CMYK and wider modes of PIL are outside the model.
\<close>

datatype pixels =
    L "nat \<Rightarrow> nat \<Rightarrow> 8 word"
  | LA "nat \<Rightarrow> nat \<Rightarrow> 8 word \<times> 8 word"
  | RGB "nat \<Rightarrow> nat \<Rightarrow> 8 word \<times> 8 word \<times> 8 word"
  | RGBA "nat \<Rightarrow> nat \<Rightarrow> 8 word \<times> 8 word \<times> 8 word \<times> 8 word"

record pil_image =
  width :: nat
  height :: nat
  pixels :: pixels

text \<open>
  \<open>image.convert("RGB")\<close>: grey is copied to the three channels and alpha is dropped.
\<close>

definition convert_RGB :: "pil_image \<Rightarrow> pil_image" where
  "convert_RGB im =
     im\<lparr>pixels :=
          RGB (case pixels im of
                 L f \<Rightarrow> (\<lambda>x y. (f x y, f x y, f x y))
               | LA f \<Rightarrow> (\<lambda>x y. (fst (f x y), fst (f x y), fst (f x y)))
               | RGB f \<Rightarrow> f
               | RGBA f \<Rightarrow> (\<lambda>x y. (fst (f x y), fst (snd (f x y)), fst (snd (snd (f x y))))))\<rparr>"

definition band :: "8 word list \<Rightarrow> nat \<Rightarrow> real" where
  "band bs c = (if c < length bs then real (unat (bs ! c)) else 0)"

text \<open>
  \<open>np.array(image)\<close>: rows first, then columns, then the bands of the mode; a grey
  image has no third axis.
\<close>

definition np_array :: "pil_image \<Rightarrow> ndarray" where
  "np_array im =
     (case pixels im of
        L f \<Rightarrow>
          \<lparr>shape = [height im, width im], dtype = UInt8,
           item = (\<lambda>idx. case idx of [y, x] \<Rightarrow> real (unat (f x y)) | _ \<Rightarrow> 0)\<rparr>
      | LA f \<Rightarrow>
          \<lparr>shape = [height im, width im, 2], dtype = UInt8,
           item = (\<lambda>idx. case idx of
                     [y, x, c] \<Rightarrow> (case f x y of (l, a) \<Rightarrow> band [l, a] c)
                   | _ \<Rightarrow> 0)\<rparr>
      | RGB f \<Rightarrow>
          \<lparr>shape = [height im, width im, 3], dtype = UInt8,
           item = (\<lambda>idx. case idx of
                     [y, x, c] \<Rightarrow> (case f x y of (r, g, b) \<Rightarrow> band [r, g, b] c)
                   | _ \<Rightarrow> 0)\<rparr>
      | RGBA f \<Rightarrow>
          \<lparr>shape = [height im, width im, 4], dtype = UInt8,
           item = (\<lambda>idx. case idx of
                     [y, x, c] \<Rightarrow> (case f x y of (r, g, b, a) \<Rightarrow> band [r, g, b, a] c)
                   | _ \<Rightarrow> 0)\<rparr>)"

subsection \<open>Bilinear resizing\<close>

text \<open>
  \<open>tf.image.resize(images, size)\<close> with its default method: bilinear interpolation with
  half-pixel centres and no antialiasing. Output coordinate \<open>i\<close> maps to the source
  coordinate \<open>(i + 1/2) * scale - 1/2\<close> with \<open>scale = in_size / out_size\<close>; the two
  neighbours are the floor (not below 0) and the ceiling (not above \<open>in_size - 1\<close>), the
  weight is the fractional part. The result is float32 whatever the input type. The
  kernel refuses an input without channels, an input of zero height or width and an
  output of zero size with InvalidArgumentError; an array that is neither an image nor a
  batch of images raises ValueError.
\<close>

definition half_pixel_scaler :: "nat \<Rightarrow> real \<Rightarrow> real" where
  "half_pixel_scaler i scale = (real i + 1 / 2) * scale - 1 / 2"

definition interp_lower :: "real \<Rightarrow> nat" where
  "interp_lower inp = nat (max \<lfloor>inp\<rfloor> 0)"

definition interp_upper :: "real \<Rightarrow> nat \<Rightarrow> nat" where
  "interp_upper inp in_size = nat (min \<lceil>inp\<rceil> (int in_size - 1))"

definition interp_lerp :: "real \<Rightarrow> real" where
  "interp_lerp inp = inp - real_of_int \<lfloor>inp\<rfloor>"

definition compute_lerp :: "real \<Rightarrow> real \<Rightarrow> real \<Rightarrow> real \<Rightarrow> real \<Rightarrow> real \<Rightarrow> real" where
  "compute_lerp top_left top_right bottom_left bottom_right x_lerp y_lerp =
     (let top = top_left + (top_right - top_left) * x_lerp;
          bottom = bottom_left + (bottom_right - bottom_left) * x_lerp
      in top + (bottom - top) * y_lerp)"

definition resize_bilinear ::
  "(nat \<Rightarrow> nat \<Rightarrow> real) \<Rightarrow> nat \<Rightarrow> nat \<Rightarrow> nat \<Rightarrow> nat \<Rightarrow> nat \<Rightarrow> nat \<Rightarrow> real" where
  "resize_bilinear img in_height in_width out_height out_width y x =
     (let in_y = half_pixel_scaler y (real in_height / real out_height);
          in_x = half_pixel_scaler x (real in_width / real out_width);
          y_lo = interp_lower in_y; y_hi = interp_upper in_y in_height;
          x_lo = interp_lower in_x; x_hi = interp_upper in_x in_width
      in compute_lerp (img y_lo x_lo) (img y_lo x_hi) (img y_hi x_lo) (img y_hi x_hi)
           (interp_lerp in_x) (interp_lerp in_y))"

definition tf_image_resize :: "ndarray \<Rightarrow> nat \<times> nat \<Rightarrow> exn + ndarray" where
  "tf_image_resize images size' =
     (case shape images of
        [h, w, c] \<Rightarrow>
          if c = 0 \<or> h = 0 \<or> w = 0 \<or> fst size' = 0 \<or> snd size' = 0
          then Inl InvalidArgumentError
          else Inr \<lparr>shape = [fst size', snd size', c], dtype = Float32,
                    item = (\<lambda>idx. case idx of
                              [y, x, k] \<Rightarrow>
                                resize_bilinear (\<lambda>y' x'. item images [y', x', k])
                                  h w (fst size') (snd size') y x
                            | _ \<Rightarrow> 0)\<rparr>
      | [n, h, w, c] \<Rightarrow>
          if c = 0 \<or> h = 0 \<or> w = 0 \<or> fst size' = 0 \<or> snd size' = 0
          then Inl InvalidArgumentError
          else Inr \<lparr>shape = [n, fst size', snd size', c], dtype = Float32,
                    item = (\<lambda>idx. case idx of
                              [b, y, x, k] \<Rightarrow>
                                resize_bilinear (\<lambda>y' x'. item images [b, y', x', k])
                                  h w (fst size') (snd size') y x
                            | _ \<Rightarrow> 0)\<rparr>
      | _ \<Rightarrow> Inl ValueError)"

subsection \<open>The module\<close>

definition CLASS_NAMES :: "string list" where
  "CLASS_NAMES = [''Early_blight'', ''Late_blight'', ''Healthy'']"

definition IMAGE_SIZE :: "nat \<times> nat" where
  "IMAGE_SIZE = (256, 256)"

definition read_file_as_image ::
  "(8 word list \<Rightarrow> exn + pil_image) \<Rightarrow> 8 word list \<Rightarrow> exn + ndarray" where
  "read_file_as_image Image_open data =
     try_bind (Image_open data) (\<lambda>image. Inr (np_array (convert_RGB image)))"

definition preprocess_image :: "ndarray \<Rightarrow> exn + ndarray" where
  "preprocess_image image' =
     try_bind (tf_image_resize image' IMAGE_SIZE) (\<lambda>img. np_expand_dims img 0)"

text \<open>The JSON object that \<open>predict\<close> returns.\<close>

record response =
  filename :: string
  prediction :: string
  confidence :: real
  class_index :: nat
  shape_repr :: string

text \<open>
  Line 41 of \<open>predict\<close>: the batch goes to the model as it is. \<open>MODEL\<close> is the model
  loaded when the module is imported; it returns one row of scores per item of the batch,
  or raises.
\<close>

definition classify ::
  "(ndarray \<Rightarrow> exn + real list list) \<Rightarrow> ndarray \<Rightarrow> exn + real list list" where
  "classify MODEL input_batch = MODEL input_batch"

text \<open>
  Lines 44 to 54 of \<open>predict\<close>: the largest score of the first row, its index and its
  label. The label table is the module's \<open>CLASS_NAMES\<close>, passed in by \<open>predict\<close>.
\<close>

definition assemble ::
  "string list \<Rightarrow> string \<Rightarrow> ndarray \<Rightarrow> real list list \<Rightarrow> exn + response" where
  "assemble labels file_name image' preds =
     try_bind (getitem preds 0) (\<lambda>row.
     try_bind (np_argmax row) (\<lambda>predicted_index.
     try_bind (getitem labels predicted_index) (\<lambda>predicted_class.
     try_bind (getitem preds 0) (\<lambda>row'.
     try_bind (np_max row') (\<lambda>conf.
       Inr \<lparr>filename = file_name,
            prediction = predicted_class,
            confidence = conf,
            class_index = predicted_index,
            shape_repr = str_tuple (shape image')\<rparr>)))))"

definition predict ::
  "(8 word list \<Rightarrow> exn + pil_image) \<Rightarrow> (ndarray \<Rightarrow> exn + real list list) \<Rightarrow>
   string \<Rightarrow> 8 word list \<Rightarrow> exn + response" where
  "predict Image_open MODEL file_name data =
     try_bind (read_file_as_image Image_open data) (\<lambda>image.
     try_bind (preprocess_image image) (\<lambda>input_batch.
     try_bind (classify MODEL input_batch) (\<lambda>preds.
       assemble CLASS_NAMES file_name image preds)))"

subsection \<open>Example inputs\<close>

text \<open>Concrete inputs at which the theorems below are instantiated.\<close>

definition example_image :: ndarray where
  "example_image = \<lparr>shape = [2, 2, 3], dtype = UInt8, item = (\<lambda>idx. 0)\<rparr>"

definition small_batch :: ndarray where
  "small_batch = \<lparr>shape = [1, 128, 128, 3], dtype = Float32, item = (\<lambda>idx. 0)\<rparr>"

definition grey_picture :: pil_image where
  "grey_picture = \<lparr>width = 4, height = 2, pixels = L (\<lambda>x y. 200)\<rparr>"

definition empty_picture :: pil_image where
  "empty_picture = \<lparr>width = 0, height = 2, pixels = RGB (\<lambda>x y. (0, 0, 0))\<rparr>"

definition white_picture :: pil_image where
  "white_picture = \<lparr>width = 3, height = 2, pixels = RGBA (\<lambda>x y. (255, 255, 255, 128))\<rparr>"

definition example_open :: "8 word list \<Rightarrow> exn + pil_image" where
  "example_open data =
     (if data = [] then Inl UnidentifiedImageError
      else if data = [0] then Inr empty_picture
      else if data = [255] then Inr white_picture
      else Inr grey_picture)"

definition softmax_model :: "ndarray \<Rightarrow> exn + real list list" where
  "softmax_model batch = Inr [[1 / 50, 3 / 100, 19 / 20]]"

definition logit_model :: "ndarray \<Rightarrow> exn + real list list" where
  "logit_model batch = Inr [[5 / 2, 1 / 10, 3 / 10]]"

definition failing_model :: "ndarray \<Rightarrow> exn + real list list" where
  "failing_model batch = Inl (OtherError ''ResourceExhaustedError'')"

section \<open>The largest score and its index\<close>

lemma argmax_loop_spec:
  assumes "max_ind < i" "i = length pre" "pre ! max_ind = mp"
    "\<forall>j < length pre. pre ! j \<le> mp" "\<forall>j < max_ind. pre ! j < mp"
  shows "argmax_loop mp max_ind i xs < length (pre @ xs) \<and>
         (\<forall>j < length (pre @ xs). (pre @ xs) ! j \<le> (pre @ xs) ! argmax_loop mp max_ind i xs) \<and>
         (\<forall>j < argmax_loop mp max_ind i xs.
            (pre @ xs) ! j < (pre @ xs) ! argmax_loop mp max_ind i xs)"
  using assms
proof (induction xs arbitrary: mp max_ind i pre)
  case Nil
  then show ?case by simp
next
  case (Cons x xs)
  let ?pre = "pre @ [x]"
  show ?case
  proof (cases "mp < x")
    case True
    have "argmax_loop x i (Suc i) xs < length (?pre @ xs) \<and>
         (\<forall>j < length (?pre @ xs). (?pre @ xs) ! j \<le> (?pre @ xs) ! argmax_loop x i (Suc i) xs) \<and>
         (\<forall>j < argmax_loop x i (Suc i) xs.
            (?pre @ xs) ! j < (?pre @ xs) ! argmax_loop x i (Suc i) xs)"
    proof (rule Cons.IH)
      show "i < Suc i" by simp
      show "Suc i = length ?pre" using Cons.prems by simp
      show "?pre ! i = x" using Cons.prems by simp
      show "\<forall>j < length ?pre. ?pre ! j \<le> x"
        using Cons.prems True by (auto simp: nth_append less_Suc_eq intro: order_trans less_imp_le)
      show "\<forall>j < i. ?pre ! j < x"
        using Cons.prems True by (auto simp: nth_append intro: le_less_trans)
    qed
    with True show ?thesis by simp
  next
    case False
    have "argmax_loop mp max_ind (Suc i) xs < length (?pre @ xs) \<and>
         (\<forall>j < length (?pre @ xs).
            (?pre @ xs) ! j \<le> (?pre @ xs) ! argmax_loop mp max_ind (Suc i) xs) \<and>
         (\<forall>j < argmax_loop mp max_ind (Suc i) xs.
            (?pre @ xs) ! j < (?pre @ xs) ! argmax_loop mp max_ind (Suc i) xs)"
    proof (rule Cons.IH)
      show "max_ind < Suc i" using Cons.prems by simp
      show "Suc i = length ?pre" using Cons.prems by simp
      show "?pre ! max_ind = mp" using Cons.prems by (simp add: nth_append)
      show "\<forall>j < length ?pre. ?pre ! j \<le> mp"
        using Cons.prems False by (auto simp: nth_append less_Suc_eq)
      show "\<forall>j < max_ind. ?pre ! j < mp"
        using Cons.prems by (auto simp: nth_append)
    qed
    with False show ?thesis by simp
  qed
qed

lemma np_argmax_first_max:
  assumes "a \<noteq> []"
  shows "\<exists>i. np_argmax a = Inr i \<and> i < length a \<and> a ! i = Max (set a) \<and>
             (\<forall>j < i. a ! j < Max (set a))"
proof -
  from assms obtain x xs where a: "a = x # xs" by (cases a) auto
  let ?i = "argmax_loop x 0 1 xs"
  have spec: "?i < length ([x] @ xs) \<and>
      (\<forall>j < length ([x] @ xs). ([x] @ xs) ! j \<le> ([x] @ xs) ! ?i) \<and>
      (\<forall>j < ?i. ([x] @ xs) ! j < ([x] @ xs) ! ?i)"
    by (rule argmax_loop_spec) simp_all
  then have len: "?i < length a" and ub: "\<forall>j < length a. a ! j \<le> a ! ?i"
    and first: "\<forall>j < ?i. a ! j < a ! ?i"
    using a by simp_all
  have "Max (set a) = a ! ?i"
  proof (rule Max_eqI)
    show "finite (set a)" by simp
    show "a ! ?i \<in> set a" using len by simp
    fix y assume "y \<in> set a"
    then obtain j where "j < length a" "a ! j = y" by (auto simp: in_set_conv_nth)
    with ub show "y \<le> a ! ?i" by auto
  qed
  with len first show ?thesis using a by (simp add: np_argmax_def)
qed

lemma np_max_eq_Max: "a \<noteq> [] \<Longrightarrow> np_max a = Inr (Max (set a))"
  by (cases a) (simp_all add: np_max_def Max.set_eq_fold [symmetric])

lemma assemble_row:
  "assemble labels file_name img (scores # rest) =
     try_bind (np_argmax scores) (\<lambda>i.
     try_bind (getitem labels i) (\<lambda>c.
     try_bind (np_max scores) (\<lambda>conf.
       Inr \<lparr>filename = file_name, prediction = c, confidence = conf, class_index = i,
            shape_repr = str_tuple (shape img)\<rparr>)))"
  by (simp add: assemble_def getitem_def try_bind_def)

lemma assemble_Inr_iff:
  "assemble labels file_name img (scores # rest) = Inr r \<longleftrightarrow>
     (\<exists>i. np_argmax scores = Inr i \<and> i < length labels \<and>
          r = \<lparr>filename = file_name, prediction = labels ! i, confidence = Max (set scores),
               class_index = i, shape_repr = str_tuple (shape img)\<rparr>)"
proof (cases "scores = []")
  case True
  then show ?thesis by (simp add: assemble_row np_argmax_def try_bind_def)
next
  case False
  from np_argmax_first_max [OF False] obtain i where i: "np_argmax scores = Inr i" by blast
  show ?thesis
    using False i by (auto simp: assemble_row np_max_eq_Max try_bind_def getitem_def)
qed

lemma assemble_empty: "assemble labels file_name img [] = Inl IndexError"
  by (simp add: assemble_def getitem_def try_bind_def)

text \<open>
  Claim C1. The class index that the result-assembly step reports is the index of the
  largest score, and among equal largest scores the lowest index: whenever the step
  returns a result for a row of scores, the score at the reported index is the maximum of
  the row and every score before it is strictly smaller. A row that is not empty and not
  longer than the label table always gives a result. The scores 0.5, 0.5, 0.1 give index 0.
\<close>

theorem assemble_index_is_first_maximum:
  "(scores \<noteq> [] \<and> length scores \<le> length labels \<longrightarrow>
      (\<exists>r. assemble labels file_name img (scores # rest) = Inr r)) \<and>
   (\<forall>r. assemble labels file_name img (scores # rest) = Inr r \<longrightarrow>
      class_index r < length scores \<and>
      scores ! class_index r = Max (set scores) \<and>
      (\<forall>j < class_index r. scores ! j < Max (set scores))) \<and>
   (\<exists>r. assemble CLASS_NAMES file_name img [[1 / 2, 1 / 2, 1 / 10]] = Inr r \<and>
      class_index r = 0)"
proof (intro conjI allI impI)
  assume ne: "scores \<noteq> [] \<and> length scores \<le> length labels"
  with np_argmax_first_max [of scores] obtain i
    where "np_argmax scores = Inr i" "i < length labels" by force
  then show "\<exists>r. assemble labels file_name img (scores # rest) = Inr r"
    by (simp add: assemble_Inr_iff)
next
  fix r
  assume ok: "assemble labels file_name img (scores # rest) = Inr r"
  then obtain i where i: "np_argmax scores = Inr i" "class_index r = i"
    by (auto simp: assemble_Inr_iff)
  then have "scores \<noteq> []" by (auto simp: np_argmax_def)
  from np_argmax_first_max [OF this] i
  have *: "i < length scores \<and> scores ! i = Max (set scores) \<and>
      (\<forall>j < i. scores ! j < Max (set scores))" by auto
  from * i show "class_index r < length scores" by simp
  from * i show "scores ! class_index r = Max (set scores)" by simp
  fix j assume "j < class_index r"
  with * i show "scores ! j < Max (set scores)" by simp
next
  show "\<exists>r. assemble CLASS_NAMES file_name img [[1 / 2, 1 / 2, 1 / 10]] = Inr r \<and>
      class_index r = 0"
    by (simp add: assemble_Inr_iff np_argmax_def CLASS_NAMES_def)
qed

theorem assemble_index_is_first_maximum_witness:
  "assemble CLASS_NAMES ''leaf.jpg'' example_image [[1 / 5, 7 / 10, 7 / 10]] =
     Inr \<lparr>filename = ''leaf.jpg'', prediction = ''Late_blight'', confidence = 7 / 10,
          class_index = 1, shape_repr = ''(2, 2, 3)''\<rparr> \<and>
   [1 / 5, 7 / 10, 7 / 10 :: real] ! 1 = Max (set [1 / 5, 7 / 10, 7 / 10]) \<and>
   [1 / 5, 7 / 10, 7 / 10 :: real] ! 0 < Max (set [1 / 5, 7 / 10, 7 / 10])"
proof -
  let ?r = "\<lparr>filename = ''leaf.jpg'', prediction = ''Late_blight'', confidence = 7 / 10,
          class_index = 1, shape_repr = ''(2, 2, 3)''\<rparr>"
  have run: "assemble CLASS_NAMES ''leaf.jpg'' example_image [[1 / 5, 7 / 10, 7 / 10]] = Inr ?r"
    by (simp add: assemble_def getitem_def try_bind_def np_argmax_def np_max_def
        CLASS_NAMES_def example_image_def str_tuple_def digit_def)
  from assemble_index_is_first_maximum
    [of "[1 / 5, 7 / 10, 7 / 10]" CLASS_NAMES "''leaf.jpg''" example_image "[]"] run
  have "[1 / 5, 7 / 10, 7 / 10 :: real] ! class_index ?r = Max (set [1 / 5, 7 / 10, 7 / 10]) \<and>
      (\<forall>j < class_index ?r. [1 / 5, 7 / 10, 7 / 10 :: real] ! j < Max (set [1 / 5, 7 / 10, 7 / 10]))"
    by blast
  then have "[1 / 5, 7 / 10, 7 / 10 :: real] ! 1 = Max (set [1 / 5, 7 / 10, 7 / 10]) \<and>
      [1 / 5, 7 / 10, 7 / 10 :: real] ! 0 < Max (set [1 / 5, 7 / 10, 7 / 10])"
    by (simp del: set_simps Max_insert)
  with run show ?thesis by blast
qed

section \<open>Results of the whole pipeline\<close>

lemma try_bind_Inr_iff:
  "try_bind m f = Inr r \<longleftrightarrow> (\<exists>v. m = Inr v \<and> f v = Inr r)"
  by (cases m) (simp_all add: try_bind_def)

lemma try_bind_Inl_iff:
  "try_bind m f = Inl e \<longleftrightarrow> m = Inl e \<or> (\<exists>v. m = Inr v \<and> f v = Inl e)"
  by (cases m) (simp_all add: try_bind_def)

lemma predict_Inr_iff:
  "predict Image_open MODEL file_name data = Inr r \<longleftrightarrow>
     (\<exists>img batch preds.
        read_file_as_image Image_open data = Inr img \<and>
        preprocess_image img = Inr batch \<and>
        MODEL batch = Inr preds \<and>
        assemble CLASS_NAMES file_name img preds = Inr r)"
  by (simp add: predict_def classify_def try_bind_Inr_iff)

lemma assemble_Inr_row:
  assumes "assemble labels file_name img preds = Inr r"
  obtains scores rest where "preds = scores # rest" "scores \<noteq> []"
    "confidence r = Max (set scores)"
proof (cases preds)
  case Nil
  with assms show ?thesis by (simp add: assemble_empty)
next
  case (Cons scores rest)
  with assms have "confidence r = Max (set scores)" "scores \<noteq> []"
    by (auto simp: assemble_Inr_iff np_argmax_def)
  with Cons that show ?thesis by blast
qed

text \<open>
  Claim C2. The confidence in the result is the largest score itself: whenever the
  result-assembly step returns a result for a row of scores, its confidence equals the
  maximum of the row and is one of the row's values, so nothing is normalised or rescaled
  on the way. A row that is not empty and not longer than the label table always gives a
  result. The same holds for a result of the whole of \<open>predict\<close>, for the first row that the
  model returned.
\<close>

theorem assemble_confidence_is_maximum:
  "(scores \<noteq> [] \<and> length scores \<le> length labels \<longrightarrow>
      (\<exists>r. assemble labels file_name img (scores # rest) = Inr r)) \<and>
   (\<forall>r. assemble labels file_name img (scores # rest) = Inr r \<longrightarrow>
      confidence r = Max (set scores) \<and> confidence r \<in> set scores) \<and>
   (\<forall>r. predict Image_open MODEL file_name data = Inr r \<longrightarrow>
      (\<exists>batch row rest'. MODEL batch = Inr (row # rest') \<and>
         confidence r = Max (set row) \<and> confidence r \<in> set row))"
proof (intro conjI allI impI)
  assume ne: "scores \<noteq> [] \<and> length scores \<le> length labels"
  with np_argmax_first_max [of scores] obtain i
    where "np_argmax scores = Inr i" "i < length labels" by force
  then show "\<exists>r. assemble labels file_name img (scores # rest) = Inr r"
    by (simp add: assemble_Inr_iff)
next
  fix r
  assume ok: "assemble labels file_name img (scores # rest) = Inr r"
  then obtain s t where "scores # rest = s # t" "s \<noteq> []" "confidence r = Max (set s)"
    by (rule assemble_Inr_row)
  then have *: "scores \<noteq> []" "confidence r = Max (set scores)" by simp_all
  from * show "confidence r = Max (set scores)" by simp
  from * show "confidence r \<in> set scores" by simp
next
  fix r
  assume "predict Image_open MODEL file_name data = Inr r"
  then obtain img batch preds where m: "MODEL batch = Inr preds"
    and a: "assemble CLASS_NAMES file_name img preds = Inr r"
    by (auto simp: predict_Inr_iff)
  from a obtain row rest' where "preds = row # rest'" "row \<noteq> []"
    "confidence r = Max (set row)"
    by (rule assemble_Inr_row)
  with m have "MODEL batch = Inr (row # rest') \<and>
         confidence r = Max (set row) \<and> confidence r \<in> set row"
    by simp
  then show "\<exists>batch row rest'. MODEL batch = Inr (row # rest') \<and>
         confidence r = Max (set row) \<and> confidence r \<in> set row"
    by blast
qed

lemma predict_grey_softmax:
  "predict example_open softmax_model ''leaf.jpg'' [1] =
     Inr \<lparr>filename = ''leaf.jpg'', prediction = ''Healthy'', confidence = 19 / 20,
          class_index = 2, shape_repr = ''(2, 4, 3)''\<rparr>"
  by (simp add: predict_def classify_def read_file_as_image_def preprocess_image_def
      tf_image_resize_def np_expand_dims_def np_array_def convert_RGB_def IMAGE_SIZE_def
      example_open_def grey_picture_def softmax_model_def
      assemble_def getitem_def try_bind_def np_argmax_def np_max_def
      CLASS_NAMES_def str_tuple_def digit_def)

theorem assemble_confidence_is_maximum_witness:
  "predict example_open softmax_model ''leaf.jpg'' [1] =
     Inr \<lparr>filename = ''leaf.jpg'', prediction = ''Healthy'', confidence = 19 / 20,
          class_index = 2, shape_repr = ''(2, 4, 3)''\<rparr> \<and>
   (\<exists>batch row rest'. softmax_model batch = Inr (row # rest') \<and>
      19 / 20 = Max (set row) \<and> 19 / 20 \<in> set row)"
proof -
  let ?r = "\<lparr>filename = ''leaf.jpg'', prediction = ''Healthy'', confidence = 19 / 20,
          class_index = 2, shape_repr = ''(2, 4, 3)''\<rparr>"
  have run: "predict example_open softmax_model ''leaf.jpg'' [1] = Inr ?r"
    by (rule predict_grey_softmax)
  from assemble_confidence_is_maximum
    [where Image_open = example_open and MODEL = softmax_model
      and file_name = "''leaf.jpg''" and data = "[1]"] run
  have "\<exists>batch row rest'. softmax_model batch = Inr (row # rest') \<and>
      confidence ?r = Max (set row) \<and> confidence ?r \<in> set row"
    by blast
  with run show ?thesis by simp
qed

section \<open>Failures of the result assembly\<close>

lemma assemble_Inl_cases:
  assumes "assemble labels file_name img (scores # rest) = Inl e"
  shows "(e = ValueError \<and> scores = []) \<or>
         (e = IndexError \<and> (\<exists>i. np_argmax scores = Inr i \<and> length labels \<le> i))"
proof (cases "scores = []")
  case True
  with assms show ?thesis by (simp add: assemble_row np_argmax_def try_bind_def)
next
  case False
  from np_argmax_first_max [OF False] obtain i where i: "np_argmax scores = Inr i" by blast
  with assms False show ?thesis
    by (auto simp: assemble_row np_max_eq_Max try_bind_def getitem_def split: if_splits)
qed

text \<open>
  Claim C5, as stated, fails: the step does not compare the number of scores with the
  number of labels. Three scores with a table of four labels give a result.
\<close>

theorem assemble_length_mismatch_counterexample:
  "length [1 / 2, 3 / 10, 1 / 5 :: real] \<noteq>
     length [''Early_blight'', ''Late_blight'', ''Healthy'', ''Unknown''] \<and>
   assemble [''Early_blight'', ''Late_blight'', ''Healthy'', ''Unknown''] ''leaf.jpg''
       example_image [[1 / 2, 3 / 10, 1 / 5]] =
     Inr \<lparr>filename = ''leaf.jpg'', prediction = ''Early_blight'', confidence = 1 / 2,
          class_index = 0, shape_repr = ''(2, 2, 3)''\<rparr>"
  by (simp add: assemble_def getitem_def try_bind_def np_argmax_def np_max_def
      example_image_def str_tuple_def digit_def)

text \<open>
  Claim C5, amended. The result-assembly step has no length check. For a first row of
  scores it returns a result exactly when the row has a largest score whose index is
  inside the label table, so always when the row is not empty and not longer than the
  table. When it fails, the row is empty (ValueError from \<open>np.argmax\<close>) or the index of the
  largest score is outside the table (IndexError from \<open>CLASS_NAMES[predicted_index]\<close>).
\<close>

theorem assemble_succeeds_iff_index_in_labels:
  "((\<exists>r. assemble labels file_name img (scores # rest) = Inr r) \<longleftrightarrow>
      (\<exists>i. np_argmax scores = Inr i \<and> i < length labels)) \<and>
   (scores \<noteq> [] \<and> length scores \<le> length labels \<longrightarrow>
      (\<exists>r. assemble labels file_name img (scores # rest) = Inr r)) \<and>
   (\<forall>e. assemble labels file_name img (scores # rest) = Inl e \<longrightarrow>
      (e = ValueError \<and> scores = []) \<or>
      (e = IndexError \<and> (\<exists>i. np_argmax scores = Inr i \<and> length labels \<le> i)))"
proof (intro conjI allI impI)
  show "(\<exists>r. assemble labels file_name img (scores # rest) = Inr r) \<longleftrightarrow>
      (\<exists>i. np_argmax scores = Inr i \<and> i < length labels)"
    by (auto simp: assemble_Inr_iff)
next
  assume "scores \<noteq> [] \<and> length scores \<le> length labels"
  with np_argmax_first_max [of scores] obtain i
    where "np_argmax scores = Inr i" "i < length labels" by force
  then show "\<exists>r. assemble labels file_name img (scores # rest) = Inr r"
    by (simp add: assemble_Inr_iff)
next
  fix e
  assume "assemble labels file_name img (scores # rest) = Inl e"
  then show "(e = ValueError \<and> scores = []) \<or>
      (e = IndexError \<and> (\<exists>i. np_argmax scores = Inr i \<and> length labels \<le> i))"
    by (rule assemble_Inl_cases)
qed

theorem assemble_succeeds_iff_index_in_labels_witness:
  "assemble CLASS_NAMES ''leaf.jpg'' example_image [[1 / 10, 1 / 5, 3 / 10, 2 / 5]] =
     Inl IndexError \<and>
   np_argmax [1 / 10, 1 / 5, 3 / 10, 2 / 5] = Inr 3 \<and> length CLASS_NAMES \<le> 3 \<and>
   [1 / 2, 3 / 10 :: real] \<noteq> [] \<and> length [1 / 2, 3 / 10 :: real] \<le> length CLASS_NAMES \<and>
   (\<exists>r. assemble CLASS_NAMES ''leaf.jpg'' example_image [[1 / 2, 3 / 10]] = Inr r)"
proof -
  have fail: "assemble CLASS_NAMES ''leaf.jpg'' example_image [[1 / 10, 1 / 5, 3 / 10, 2 / 5]] =
     Inl IndexError"
    by (simp add: assemble_def getitem_def try_bind_def np_argmax_def CLASS_NAMES_def)
  have idx: "np_argmax [1 / 10, 1 / 5, 3 / 10, 2 / 5] = Inr 3"
    by (simp add: np_argmax_def)
  have len: "[1 / 2, 3 / 10 :: real] \<noteq> [] \<and> length [1 / 2, 3 / 10 :: real] \<le> length CLASS_NAMES"
    by (simp add: CLASS_NAMES_def)
  from assemble_succeeds_iff_index_in_labels
    [where labels = CLASS_NAMES and file_name = "''leaf.jpg''" and img = example_image
      and scores = "[1 / 10, 1 / 5, 3 / 10, 2 / 5]" and rest = "[]"] fail
  have "(IndexError = ValueError \<and> [1 / 10, 1 / 5, 3 / 10, 2 / 5 :: real] = []) \<or>
      (\<exists>i. np_argmax [1 / 10, 1 / 5, 3 / 10, 2 / 5] = Inr i \<and> length CLASS_NAMES \<le> i)"
    by blast
  with idx have bound: "length CLASS_NAMES \<le> 3" by simp
  from assemble_succeeds_iff_index_in_labels
    [where labels = CLASS_NAMES and file_name = "''leaf.jpg''" and img = example_image
      and scores = "[1 / 2, 3 / 10]" and rest = "[]"] len
  have "\<exists>r. assemble CLASS_NAMES ''leaf.jpg'' example_image [[1 / 2, 3 / 10]] = Inr r"
    by blast
  with fail idx bound len show ?thesis by blast
qed

section \<open>The range of the confidence\<close>

lemma predict_grey_logit:
  "predict example_open logit_model ''leaf.jpg'' [1] =
     Inr \<lparr>filename = ''leaf.jpg'', prediction = ''Early_blight'', confidence = 5 / 2,
          class_index = 0, shape_repr = ''(2, 4, 3)''\<rparr>"
  by (simp add: predict_def classify_def read_file_as_image_def preprocess_image_def
      tf_image_resize_def np_expand_dims_def np_array_def convert_RGB_def IMAGE_SIZE_def
      example_open_def grey_picture_def logit_model_def
      assemble_def getitem_def try_bind_def np_argmax_def np_max_def
      CLASS_NAMES_def str_tuple_def digit_def)

text \<open>
  Claim C9, as stated, fails: the confidence is whatever the model's largest score is. A
  model whose scores are not probabilities gives a result with confidence 2.5.
\<close>

theorem confidence_above_one_counterexample:
  "predict example_open logit_model ''leaf.jpg'' [1] =
     Inr \<lparr>filename = ''leaf.jpg'', prediction = ''Early_blight'', confidence = 5 / 2,
          class_index = 0, shape_repr = ''(2, 4, 3)''\<rparr> \<and>
   \<not> (confidence \<lparr>filename = ''leaf.jpg'', prediction = ''Early_blight'', confidence = 5 / 2,
          class_index = 0, shape_repr = ''(2, 4, 3)''\<rparr> \<le> 1)"
  using predict_grey_logit by simp

text \<open>
  Claim C9, amended. When every score that the model returns lies between 0 and 1, the
  confidence of every result of \<open>predict\<close> lies between 0 and 1. The pipeline itself
  neither clamps nor normalises the score.
\<close>

theorem confidence_in_unit_interval_for_unit_scores:
  assumes "predict Image_open MODEL file_name data = Inr r"
    and "\<forall>batch preds. MODEL batch = Inr preds \<longrightarrow>
           (\<forall>row \<in> set preds. \<forall>s \<in> set row. 0 \<le> s \<and> s \<le> 1)"
  shows "0 \<le> confidence r \<and> confidence r \<le> 1"
proof -
  from assms(1) obtain img batch preds where m: "MODEL batch = Inr preds"
    and a: "assemble CLASS_NAMES file_name img preds = Inr r"
    by (auto simp: predict_Inr_iff)
  from a obtain row rest where p: "preds = row # rest" "row \<noteq> []"
    "confidence r = Max (set row)"
    by (rule assemble_Inr_row)
  then have "confidence r \<in> set row" by simp
  moreover have "\<forall>s \<in> set row. 0 \<le> s \<and> s \<le> 1"
  proof -
    from assms(2) m have "\<forall>row \<in> set preds. \<forall>s \<in> set row. 0 \<le> s \<and> s \<le> 1" by blast
    with p(1) show ?thesis by simp
  qed
  ultimately show ?thesis by blast
qed

theorem confidence_in_unit_interval_for_unit_scores_witness:
  "predict example_open softmax_model ''leaf.jpg'' [1] =
     Inr \<lparr>filename = ''leaf.jpg'', prediction = ''Healthy'', confidence = 19 / 20,
          class_index = 2, shape_repr = ''(2, 4, 3)''\<rparr> \<and>
   (0::real) \<le> 19 / 20 \<and> (19 / 20 :: real) \<le> 1"
proof -
  let ?r = "\<lparr>filename = ''leaf.jpg'', prediction = ''Healthy'', confidence = 19 / 20,
          class_index = 2, shape_repr = ''(2, 4, 3)''\<rparr>"
  have run: "predict example_open softmax_model ''leaf.jpg'' [1] = Inr ?r"
    by (rule predict_grey_softmax)
  have unit: "\<forall>batch preds. softmax_model batch = Inr preds \<longrightarrow>
      (\<forall>row \<in> set preds. \<forall>s \<in> set row. 0 \<le> s \<and> s \<le> 1)"
    by (auto simp: softmax_model_def)
  from confidence_in_unit_interval_for_unit_scores [OF run unit]
  have "(0::real) \<le> 19 / 20 \<and> (19 / 20 :: real) \<le> 1" by simp
  with run show ?thesis by blast
qed

section \<open>Interpolation keeps bounds\<close>

lemma lerp_between:
  fixes a b t lo hi :: real
  assumes "lo \<le> a" "a \<le> hi" "lo \<le> b" "b \<le> hi" "0 \<le> t" "t \<le> 1"
  shows "lo \<le> a + (b - a) * t \<and> a + (b - a) * t \<le> hi"
proof -
  have eq: "a + (b - a) * t = (1 - t) * a + t * b" by (simp add: algebra_simps)
  have "(1 - t) * lo + t * lo \<le> (1 - t) * a + t * b"
    using assms by (intro add_mono mult_left_mono) simp_all
  moreover have "(1 - t) * a + t * b \<le> (1 - t) * hi + t * hi"
    using assms by (intro add_mono mult_left_mono) simp_all
  moreover have "(1 - t) * lo + t * lo = lo" "(1 - t) * hi + t * hi = hi"
    by (simp_all add: algebra_simps)
  ultimately show ?thesis using eq by simp
qed

lemma compute_lerp_between:
  assumes "lo \<le> p \<and> p \<le> hi" "lo \<le> q \<and> q \<le> hi" "lo \<le> u \<and> u \<le> hi"
    "lo \<le> v \<and> v \<le> hi" "0 \<le> xl \<and> xl \<le> 1" "0 \<le> yl \<and> yl \<le> 1"
  shows "lo \<le> compute_lerp p q u v xl yl \<and> compute_lerp p q u v xl yl \<le> hi"
proof -
  have top: "lo \<le> p + (q - p) * xl \<and> p + (q - p) * xl \<le> hi"
    using assms by (intro lerp_between) simp_all
  have bottom: "lo \<le> u + (v - u) * xl \<and> u + (v - u) * xl \<le> hi"
    using assms by (intro lerp_between) simp_all
  show ?thesis
    unfolding compute_lerp_def Let_def
    using top bottom assms(6) by (intro lerp_between) simp_all
qed

lemma interp_lerp_unit: "0 \<le> interp_lerp inp \<and> interp_lerp inp \<le> 1"
  unfolding interp_lerp_def by linarith

lemma half_pixel_scaler_less:
  assumes "0 < in_size" "i < out_size"
  shows "half_pixel_scaler i (real in_size / real out_size) < real in_size - 1 / 2"
proof -
  have "real i + 1 / 2 < real out_size" using assms(2) by linarith
  moreover have "0 < real in_size / real out_size" using assms by simp
  ultimately have "(real i + 1 / 2) * (real in_size / real out_size) <
      real out_size * (real in_size / real out_size)"
    by (rule mult_strict_right_mono)
  also have "\<dots> = real in_size" using assms by simp
  finally show ?thesis by (simp add: half_pixel_scaler_def)
qed

lemma interp_lower_less:
  assumes "0 < in_size" "i < out_size"
  shows "interp_lower (half_pixel_scaler i (real in_size / real out_size)) < in_size"
proof -
  let ?inp = "half_pixel_scaler i (real in_size / real out_size)"
  have "?inp < real in_size" using half_pixel_scaler_less [OF assms] by linarith
  then have "\<lfloor>?inp\<rfloor> < int in_size" by (simp add: floor_less_iff)
  with assms(1) show ?thesis by (simp add: interp_lower_def)
qed

lemma interp_upper_less:
  assumes "0 < in_size"
  shows "interp_upper inp in_size < in_size"
  using assms by (simp add: interp_upper_def)

lemma resize_bilinear_between:
  assumes "0 < in_height" "0 < in_width" "y < out_height" "x < out_width"
    and "\<forall>y' x'. y' < in_height \<and> x' < in_width \<longrightarrow> lo \<le> img y' x' \<and> img y' x' \<le> hi"
  shows "lo \<le> resize_bilinear img in_height in_width out_height out_width y x \<and>
         resize_bilinear img in_height in_width out_height out_width y x \<le> hi"
proof -
  let ?in_y = "half_pixel_scaler y (real in_height / real out_height)"
  let ?in_x = "half_pixel_scaler x (real in_width / real out_width)"
  have yl: "interp_lower ?in_y < in_height" using assms by (intro interp_lower_less)
  have yh: "interp_upper ?in_y in_height < in_height" using assms by (intro interp_upper_less)
  have xl: "interp_lower ?in_x < in_width" using assms by (intro interp_lower_less)
  have xh: "interp_upper ?in_x in_width < in_width" using assms by (intro interp_upper_less)
  show ?thesis
    unfolding resize_bilinear_def Let_def
    using assms(5) yl yh xl xh
    by (intro compute_lerp_between interp_lerp_unit) simp_all
qed

section \<open>Decoding and preprocessing\<close>

lemma band_range: "0 \<le> band bs c \<and> band bs c \<le> 255"
proof (cases "c < length bs")
  case True
  have "unat (bs ! c) < 2 ^ LENGTH(8)" by (rule unsigned_less)
  then have "unat (bs ! c) \<le> 255" by simp
  then have "real (unat (bs ! c)) \<le> real 255" by (rule of_nat_mono)
  moreover have "0 \<le> real (unat (bs ! c))" by (rule of_nat_0_le_iff)
  ultimately show ?thesis using True unfolding band_def by simp
next
  case False
  then show ?thesis by (simp add: band_def)
qed

lemma shape_np_array_convert_RGB:
  "shape (np_array (convert_RGB im)) = [height im, width im, 3]"
  by (simp add: np_array_def convert_RGB_def)

lemma dtype_np_array_convert_RGB: "dtype (np_array (convert_RGB im)) = UInt8"
  by (simp add: np_array_def convert_RGB_def)

lemma item_np_array_convert_RGB_range:
  "0 \<le> item (np_array (convert_RGB im)) idx \<and> item (np_array (convert_RGB im)) idx \<le> 255"
  using band_range
  by (simp add: np_array_def convert_RGB_def split: list.splits prod.splits)

lemma read_file_as_image_Inr_iff:
  "read_file_as_image Image_open data = Inr img \<longleftrightarrow>
     (\<exists>im. Image_open data = Inr im \<and> img = np_array (convert_RGB im))"
  by (auto simp: read_file_as_image_def try_bind_Inr_iff)

lemma read_file_as_image_Inl_iff:
  "read_file_as_image Image_open data = Inl e \<longleftrightarrow> Image_open data = Inl e"
  by (simp add: read_file_as_image_def try_bind_Inl_iff)

lemma preprocess_image_rank3:
  assumes "shape img = [h, w, c]" "0 < h" "0 < w" "0 < c"
  shows "preprocess_image img =
     Inr \<lparr>shape = [1, 256, 256, c], dtype = Float32,
          item = (\<lambda>idx. case drop (Suc 0) idx of
                    [y, x, k] \<Rightarrow>
                      resize_bilinear (\<lambda>y' x'. item img [y', x', k]) h w 256 256 y x
                  | _ \<Rightarrow> 0)\<rparr>"
  using assms
  by (simp add: preprocess_image_def tf_image_resize_def IMAGE_SIZE_def np_expand_dims_def
      try_bind_def)

lemma preprocess_image_zero_size:
  assumes "shape img = [h, w, c]" "h = 0 \<or> w = 0 \<or> c = 0"
  shows "preprocess_image img = Inl InvalidArgumentError"
  using assms
  by (auto simp: preprocess_image_def tf_image_resize_def try_bind_def)

lemma valid_index_rank3:
  "valid_index [h, w, c] idx \<longleftrightarrow> (\<exists>y x k. idx = [y, x, k] \<and> y < h \<and> x < w \<and> k < c)"
  by (auto simp: valid_index_def list_all2_Cons2)

lemma valid_index_rank4:
  "valid_index [n, h, w, c] idx \<longleftrightarrow>
     (\<exists>b y x k. idx = [b, y, x, k] \<and> b < n \<and> y < h \<and> x < w \<and> k < c)"
  by (auto simp: valid_index_def list_all2_Cons2)

lemma preprocess_image_range:
  assumes shp: "shape img = [h, w, c]"
    and ok: "preprocess_image img = Inr batch"
    and bounds: "\<forall>i. valid_index (shape img) i \<longrightarrow> lo \<le> item img i \<and> item img i \<le> hi"
    and idx: "valid_index (shape batch) idx"
  shows "lo \<le> item batch idx \<and> item batch idx \<le> hi"
proof -
  have "\<not> (h = 0 \<or> w = 0 \<or> c = 0)"
  proof
    assume "h = 0 \<or> w = 0 \<or> c = 0"
    from preprocess_image_zero_size [OF shp this] ok show False by simp
  qed
  then have pos: "0 < h" "0 < w" and c: "0 < c" by simp_all
  note b = preprocess_image_rank3 [OF shp pos c]
  with ok have batch: "batch = \<lparr>shape = [1, 256, 256, c], dtype = Float32,
          item = (\<lambda>idx. case drop (Suc 0) idx of
                    [y, x, k] \<Rightarrow>
                      resize_bilinear (\<lambda>y' x'. item img [y', x', k]) h w 256 256 y x
                  | _ \<Rightarrow> 0)\<rparr>" by simp
  with idx obtain b' y x k where i: "idx = [b', y, x, k]" "y < 256" "x < 256" "k < c"
    by (auto simp: valid_index_rank4)
  have "\<forall>y' x'. y' < h \<and> x' < w \<longrightarrow>
      lo \<le> item img [y', x', k] \<and> item img [y', x', k] \<le> hi"
    using bounds shp i(4) by (simp add: valid_index_rank3)
  with pos i(2,3)
  have "lo \<le> resize_bilinear (\<lambda>y' x'. item img [y', x', k]) h w 256 256 y x \<and>
      resize_bilinear (\<lambda>y' x'. item img [y', x', k]) h w 256 256 y x \<le> hi"
    by (intro resize_bilinear_between) simp_all
  with batch i(1) show ?thesis by simp
qed

lemma tf_image_resize_dtype:
  assumes "tf_image_resize images sz = Inr out"
  shows "dtype out = Float32"
  using assms
  by (auto simp: tf_image_resize_def split: list.splits if_splits)

lemma preprocess_image_dtype:
  assumes "preprocess_image img = Inr batch"
  shows "dtype batch = Float32"
proof -
  from assms obtain out where r: "tf_image_resize img IMAGE_SIZE = Inr out"
    and e: "np_expand_dims out 0 = Inr batch"
    by (auto simp: preprocess_image_def try_bind_Inr_iff)
  from e have "dtype batch = dtype out" by (auto simp: np_expand_dims_def)
  with tf_image_resize_dtype [OF r] show ?thesis by simp
qed

lemma preprocess_image_decoded:
  "preprocess_image (np_array (convert_RGB im)) =
     (if height im = 0 \<or> width im = 0 then Inl InvalidArgumentError
      else Inr \<lparr>shape = [1, 256, 256, 3], dtype = Float32,
          item = (\<lambda>idx. case drop (Suc 0) idx of
                    [y, x, k] \<Rightarrow>
                      resize_bilinear (\<lambda>y' x'. item (np_array (convert_RGB im)) [y', x', k])
                        (height im) (width im) 256 256 y x
                  | _ \<Rightarrow> 0)\<rparr>)"
proof (cases "height im = 0 \<or> width im = 0")
  case True
  then have "height im = 0 \<or> width im = 0 \<or> (3::nat) = 0" by simp
  from preprocess_image_zero_size [OF shape_np_array_convert_RGB this] True
  show ?thesis by simp
next
  case False
  then have "0 < height im" "0 < width im" by simp_all
  from preprocess_image_rank3 [OF shape_np_array_convert_RGB this] False
  show ?thesis by simp
qed

text \<open>
  Claim C3. For every image that the parser opens, \<open>read_file_as_image\<close> returns an array
  with three channels whose height and width are those of the opened image, whatever its
  mode. \<open>preprocess_image\<close> applied to it returns a batch of shape
  \<open>(1, H, W, 3)\<close> for the module's target size \<open>IMAGE_SIZE = (H, W)\<close>; the one exception is
  an image of zero height or width, the case of claim C7, where the resize raises.
\<close>

theorem decode_and_preprocess_shapes:
  assumes "Image_open data = Inr im"
  shows "\<exists>img. read_file_as_image Image_open data = Inr img \<and>
           shape img = [height im, width im, 3] \<and>
           (if height im = 0 \<or> width im = 0
            then preprocess_image img = Inl InvalidArgumentError
            else \<exists>batch. preprocess_image img = Inr batch \<and>
                   shape batch = [1, fst IMAGE_SIZE, snd IMAGE_SIZE, 3])"
proof -
  let ?img = "np_array (convert_RGB im)"
  have "read_file_as_image Image_open data = Inr ?img"
    using assms by (simp add: read_file_as_image_Inr_iff)
  moreover have "shape ?img = [height im, width im, 3]"
    by (rule shape_np_array_convert_RGB)
  moreover have "if height im = 0 \<or> width im = 0
            then preprocess_image ?img = Inl InvalidArgumentError
            else \<exists>batch. preprocess_image ?img = Inr batch \<and>
                   shape batch = [1, fst IMAGE_SIZE, snd IMAGE_SIZE, 3]"
    by (simp add: preprocess_image_decoded IMAGE_SIZE_def)
  ultimately show ?thesis by blast
qed

theorem decode_and_preprocess_shapes_witness:
  "example_open [1] = Inr grey_picture \<and>
   (\<exists>img. read_file_as_image example_open [1] = Inr img \<and> shape img = [2, 4, 3] \<and>
      (\<exists>batch. preprocess_image img = Inr batch \<and> shape batch = [1, 256, 256, 3]))"
proof -
  have opened: "example_open [1] = Inr grey_picture" by (simp add: example_open_def)
  from decode_and_preprocess_shapes
    [where Image_open = example_open and data = "[1]" and im = grey_picture, OF opened]
  have "\<exists>img. read_file_as_image example_open [1] = Inr img \<and> shape img = [2, 4, 3] \<and>
      (\<exists>batch. preprocess_image img = Inr batch \<and> shape batch = [1, 256, 256, 3])"
    by (simp add: grey_picture_def IMAGE_SIZE_def)
  with opened show ?thesis by blast
qed

text \<open>
  Claim C4. When the bytes do not parse, that is when \<open>Image.open\<close> raises,
  \<open>read_file_as_image\<close> raises the same exception and so does \<open>predict\<close>: no default image
  stands in. \<open>read_file_as_image\<close> returns an array only for bytes that the parser opened.
  Which bytes parse is PIL's matter; the empty buffer is one it refuses.
\<close>

theorem decode_error_propagates:
  "(\<forall>e. Image_open data = Inl e \<longrightarrow>
      read_file_as_image Image_open data = Inl e \<and>
      predict Image_open MODEL file_name data = Inl e) \<and>
   (\<forall>img. read_file_as_image Image_open data = Inr img \<longrightarrow>
      (\<exists>im. Image_open data = Inr im))"
proof (intro conjI allI impI)
  fix e
  assume "Image_open data = Inl e"
  then show r: "read_file_as_image Image_open data = Inl e"
    by (simp add: read_file_as_image_Inl_iff)
  then show "predict Image_open MODEL file_name data = Inl e"
    by (simp add: predict_def try_bind_def)
next
  fix img
  assume "read_file_as_image Image_open data = Inr img"
  then show "\<exists>im. Image_open data = Inr im"
    by (auto simp: read_file_as_image_Inr_iff)
qed

theorem decode_error_propagates_witness:
  "example_open [] = Inl UnidentifiedImageError \<and>
   read_file_as_image example_open [] = Inl UnidentifiedImageError \<and>
   predict example_open softmax_model ''leaf.jpg'' [] = Inl UnidentifiedImageError"
proof -
  have failed: "example_open [] = Inl UnidentifiedImageError" by (simp add: example_open_def)
  from decode_error_propagates
    [where Image_open = example_open and data = "[]" and MODEL = softmax_model
      and file_name = "''leaf.jpg''"] failed
  have "read_file_as_image example_open [] = Inl UnidentifiedImageError \<and>
      predict example_open softmax_model ''leaf.jpg'' [] = Inl UnidentifiedImageError"
    by blast
  with failed show ?thesis by blast
qed

section \<open>The model invocation\<close>

text \<open>
  Claim C6, as stated, fails: line 41 hands the batch to the model with no check of its
  own. A batch of shape \<open>(1, 128, 128, 3)\<close>, which is not the shape that \<open>IMAGE_SIZE\<close>
  stands for, reaches the model, and what the model returns is the result.
\<close>

theorem classify_mismatched_shape_counterexample:
  "shape small_batch \<noteq> [1, fst IMAGE_SIZE, snd IMAGE_SIZE, 3] \<and>
   classify softmax_model small_batch = Inr [[1 / 50, 3 / 100, 19 / 20]]"
  by (simp add: small_batch_def IMAGE_SIZE_def classify_def softmax_model_def)

text \<open>
  Claim C6, amended. The code does not validate the shape of the batch before it invokes
  the model. Instead the batch that \<open>predict\<close> passes is always the one
  \<open>preprocess_image\<close> built, of shape \<open>(1, H, W, 3)\<close> for \<open>IMAGE_SIZE = (H, W)\<close>; it goes
  to the model unchanged, and an exception of the model invocation leaves \<open>predict\<close>
  unchanged.
\<close>

theorem predict_passes_fixed_shape_batch_to_model:
  assumes "read_file_as_image Image_open data = Inr img"
    and "preprocess_image img = Inr batch"
  shows "shape batch = [1, fst IMAGE_SIZE, snd IMAGE_SIZE, 3] \<and>
         classify MODEL batch = MODEL batch \<and>
         predict Image_open MODEL file_name data =
           try_bind (MODEL batch) (assemble CLASS_NAMES file_name img) \<and>
         (\<forall>e. MODEL batch = Inl e \<longrightarrow> predict Image_open MODEL file_name data = Inl e)"
proof -
  from assms(1) obtain im where img: "img = np_array (convert_RGB im)"
    by (auto simp: read_file_as_image_Inr_iff)
  from assms(2) have shp: "shape batch = [1, fst IMAGE_SIZE, snd IMAGE_SIZE, 3]"
    unfolding img preprocess_image_decoded
    by (auto simp: IMAGE_SIZE_def split: if_splits)
  have run: "predict Image_open MODEL file_name data =
           try_bind (MODEL batch) (assemble CLASS_NAMES file_name img)"
    using assms by (simp add: predict_def classify_def try_bind_def)
  then have "\<forall>e. MODEL batch = Inl e \<longrightarrow> predict Image_open MODEL file_name data = Inl e"
    by (simp add: try_bind_def)
  with shp run show ?thesis by (simp add: classify_def)
qed

lemma grey_decoded:
  "read_file_as_image example_open [1] = Inr (np_array (convert_RGB grey_picture))"
  by (simp add: read_file_as_image_def example_open_def try_bind_def)

lemma grey_preprocessed:
  "\<exists>batch. preprocess_image (np_array (convert_RGB grey_picture)) = Inr batch"
  by (simp add: preprocess_image_decoded grey_picture_def)

theorem predict_passes_fixed_shape_batch_to_model_witness:
  "\<exists>batch. preprocess_image (np_array (convert_RGB grey_picture)) = Inr batch \<and>
     shape batch = [1, 256, 256, 3] \<and>
     failing_model batch = Inl (OtherError ''ResourceExhaustedError'') \<and>
     predict example_open failing_model ''leaf.jpg'' [1] =
       Inl (OtherError ''ResourceExhaustedError'')"
proof -
  from grey_preprocessed obtain batch
    where b: "preprocess_image (np_array (convert_RGB grey_picture)) = Inr batch" by blast
  have f: "failing_model batch = Inl (OtherError ''ResourceExhaustedError'')"
    by (simp add: failing_model_def)
  from predict_passes_fixed_shape_batch_to_model
    [OF grey_decoded b, of failing_model "''leaf.jpg''"] f
  have "shape batch = [1, 256, 256, 3] \<and>
      predict example_open failing_model ''leaf.jpg'' [1] =
        Inl (OtherError ''ResourceExhaustedError'')"
    by (simp add: IMAGE_SIZE_def try_bind_def)
  with b f show ?thesis by blast
qed

section \<open>Images of zero size\<close>

text \<open>
  Claim C7. \<open>preprocess_image\<close> raises for an image array of zero height or zero width, and
  returns no batch: the resize refuses the input (TensorFlow's InvalidArgumentError, the
  exception in the place of the spec's ShapeError). For an opened image of zero width
  or height, \<open>read_file_as_image\<close> returns the array, \<open>preprocess_image\<close> raises on it and
  \<open>predict\<close> raises the same exception without invoking the model.
\<close>

theorem preprocess_image_zero_size_fails:
  "(shape img = [h, w, c] \<and> (h = 0 \<or> w = 0) \<longrightarrow>
      preprocess_image img = Inl InvalidArgumentError) \<and>
   (Image_open data = Inr im \<and> (height im = 0 \<or> width im = 0) \<longrightarrow>
      (\<exists>decoded. read_file_as_image Image_open data = Inr decoded \<and>
         preprocess_image decoded = Inl InvalidArgumentError) \<and>
      predict Image_open MODEL file_name data = Inl InvalidArgumentError)"
proof (intro conjI impI)
  assume "shape img = [h, w, c] \<and> (h = 0 \<or> w = 0)"
  then have "shape img = [h, w, c]" "h = 0 \<or> w = 0 \<or> c = 0" by blast+
  then show "preprocess_image img = Inl InvalidArgumentError"
    by (rule preprocess_image_zero_size)
next
  assume a: "Image_open data = Inr im \<and> (height im = 0 \<or> width im = 0)"
  let ?d = "np_array (convert_RGB im)"
  from a have r: "read_file_as_image Image_open data = Inr ?d"
    by (simp add: read_file_as_image_Inr_iff)
  from a have p: "preprocess_image ?d = Inl InvalidArgumentError"
    by (simp add: preprocess_image_decoded)
  from r p show "\<exists>decoded. read_file_as_image Image_open data = Inr decoded \<and>
         preprocess_image decoded = Inl InvalidArgumentError" by blast
  from r p show "predict Image_open MODEL file_name data = Inl InvalidArgumentError"
    by (simp add: predict_def try_bind_def)
qed

theorem preprocess_image_zero_size_fails_witness:
  "example_open [0] = Inr empty_picture \<and> width empty_picture = 0 \<and>
   (\<exists>decoded. read_file_as_image example_open [0] = Inr decoded \<and>
      preprocess_image decoded = Inl InvalidArgumentError) \<and>
   predict example_open softmax_model ''leaf.jpg'' [0] = Inl InvalidArgumentError"
proof -
  have o: "example_open [0] = Inr empty_picture" by (simp add: example_open_def)
  have z: "width empty_picture = 0" by (simp add: empty_picture_def)
  from preprocess_image_zero_size_fails
    [where Image_open = example_open and data = "[0]" and im = empty_picture
      and MODEL = softmax_model and file_name = "''leaf.jpg''"] o z
  have "(\<exists>decoded. read_file_as_image example_open [0] = Inr decoded \<and>
      preprocess_image decoded = Inl InvalidArgumentError) \<and>
   predict example_open softmax_model ''leaf.jpg'' [0] = Inl InvalidArgumentError"
    by blast
  with o z show ?thesis by blast
qed

lemma half_pixel_scaler_same_size:
  "0 < n \<Longrightarrow> half_pixel_scaler i (real n / real n) = real i"
  by (simp add: half_pixel_scaler_def)

lemma resize_bilinear_same_size:
  assumes "y < n" "x < m"
  shows "resize_bilinear img n m n m y x = img y x"
proof -
  from assms have pos: "0 < n" "0 < m" by simp_all
  have sy: "half_pixel_scaler y (real n / real n) = real y"
    by (rule half_pixel_scaler_same_size [OF pos(1)])
  have sx: "half_pixel_scaler x (real m / real m) = real x"
    by (rule half_pixel_scaler_same_size [OF pos(2)])
  have ly: "interp_lower (real y) = y" by (simp add: interp_lower_def)
  have lx: "interp_lower (real x) = x" by (simp add: interp_lower_def)
  have ty: "interp_lerp (real y) = 0" by (simp add: interp_lerp_def)
  have tx: "interp_lerp (real x) = 0" by (simp add: interp_lerp_def)
  show ?thesis
    unfolding resize_bilinear_def Let_def sy sx ly lx ty tx
    by (simp add: compute_lerp_def)
qed

lemma preprocess_image_same_size:
  assumes "shape img = [256, 256, c]" "y < 256" "x < 256" "k < c"
  shows "\<exists>batch. preprocess_image img = Inr batch \<and>
           item batch [0, y, x, k] = item img [y, x, k]"
proof -
  from assms(4) have c: "0 < c" by simp
  have "preprocess_image img =
     Inr \<lparr>shape = [1, 256, 256, c], dtype = Float32,
          item = (\<lambda>idx. case drop (Suc 0) idx of
                    [y, x, k] \<Rightarrow>
                      resize_bilinear (\<lambda>y' x'. item img [y', x', k]) 256 256 256 256 y x
                  | _ \<Rightarrow> 0)\<rparr>"
    by (rule preprocess_image_rank3 [OF assms(1) _ _ c]) simp_all
  then show ?thesis
    using assms(2,3) by (simp add: resize_bilinear_same_size)
qed

section \<open>Sample values and element type of the batch\<close>

lemma decoded_batch_range:
  assumes "read_file_as_image Image_open data = Inr img"
    and "preprocess_image img = Inr batch"
    and "valid_index (shape batch) idx"
  shows "0 \<le> item batch idx \<and> item batch idx \<le> 255"
proof -
  from assms(1) obtain im where img: "img = np_array (convert_RGB im)"
    by (auto simp: read_file_as_image_Inr_iff)
  have shp: "shape img = [height im, width im, 3]"
    unfolding img by (rule shape_np_array_convert_RGB)
  have "\<forall>i. valid_index (shape img) i \<longrightarrow> 0 \<le> item img i \<and> item img i \<le> 255"
    unfolding img using item_np_array_convert_RGB_range by blast
  from preprocess_image_range [OF shp assms(2) this assms(3)] show ?thesis .
qed

text \<open>
  Claim C8. \<open>preprocess_image\<close> does not rescale the samples: the division by 255 is
  commented out, and the resize only interpolates. Whatever bounds hold for all samples of
  the image hold for all samples of the batch, so the batch of a decoded image stays
  within 0 and 255, the range of its 8-bit samples, and a sample of value 255 is never
  mapped to 1. An image that already has the target size passes through with every sample
  unchanged.
\<close>

theorem preprocess_image_keeps_sample_range:
  "(shape img = [h, w, c] \<and> preprocess_image img = Inr batch \<and>
    (\<forall>i. valid_index (shape img) i \<longrightarrow> lo \<le> item img i \<and> item img i \<le> hi) \<and>
    valid_index (shape batch) idx \<longrightarrow>
      lo \<le> item batch idx \<and> item batch idx \<le> hi) \<and>
   (read_file_as_image Image_open data = Inr decoded \<and>
    preprocess_image decoded = Inr batch' \<and> valid_index (shape batch') idx' \<longrightarrow>
      0 \<le> item batch' idx' \<and> item batch' idx' \<le> 255) \<and>
   (shape sized = [fst IMAGE_SIZE, snd IMAGE_SIZE, n] \<and>
    y < fst IMAGE_SIZE \<and> x < snd IMAGE_SIZE \<and> k < n \<longrightarrow>
      (\<exists>b. preprocess_image sized = Inr b \<and> item b [0, y, x, k] = item sized [y, x, k]))"
proof (intro conjI impI)
  assume "shape sized = [fst IMAGE_SIZE, snd IMAGE_SIZE, n] \<and>
    y < fst IMAGE_SIZE \<and> x < snd IMAGE_SIZE \<and> k < n"
  then have "shape sized = [256, 256, n]" "y < 256" "x < 256" "k < n"
    by (simp_all add: IMAGE_SIZE_def)
  then show "\<exists>b. preprocess_image sized = Inr b \<and> item b [0, y, x, k] = item sized [y, x, k]"
    by (rule preprocess_image_same_size)
next
  assume a: "shape img = [h, w, c] \<and> preprocess_image img = Inr batch \<and>
    (\<forall>i. valid_index (shape img) i \<longrightarrow> lo \<le> item img i \<and> item img i \<le> hi) \<and>
    valid_index (shape batch) idx"
  then have "shape img = [h, w, c]" "preprocess_image img = Inr batch"
    "\<forall>i. valid_index (shape img) i \<longrightarrow> lo \<le> item img i \<and> item img i \<le> hi"
    "valid_index (shape batch) idx" by blast+
  from preprocess_image_range [OF this]
  show "lo \<le> item batch idx" "item batch idx \<le> hi" by simp_all
next
  assume "read_file_as_image Image_open data = Inr decoded \<and>
    preprocess_image decoded = Inr batch' \<and> valid_index (shape batch') idx'"
  then have "read_file_as_image Image_open data = Inr decoded"
    "preprocess_image decoded = Inr batch'" "valid_index (shape batch') idx'" by blast+
  from decoded_batch_range [OF this]
  show "0 \<le> item batch' idx'" "item batch' idx' \<le> 255" by simp_all
qed

lemma white_decoded:
  "read_file_as_image example_open [255] = Inr (np_array (convert_RGB white_picture))"
  by (simp add: read_file_as_image_def example_open_def try_bind_def)

lemma white_samples:
  "valid_index (shape (np_array (convert_RGB white_picture))) i \<Longrightarrow>
     item (np_array (convert_RGB white_picture)) i = 255"
  by (auto simp: np_array_def convert_RGB_def white_picture_def valid_index_rank3 band_def
      less_Suc_eq numeral_3_eq_3)

lemma white_preprocessed:
  "\<exists>batch. preprocess_image (np_array (convert_RGB white_picture)) = Inr batch \<and>
     shape batch = [1, 256, 256, 3]"
  by (simp add: preprocess_image_decoded white_picture_def)

theorem preprocess_image_keeps_sample_range_witness:
  "\<exists>batch. preprocess_image (np_array (convert_RGB white_picture)) = Inr batch \<and>
     shape batch = [1, 256, 256, 3] \<and> item batch [0, 100, 17, 2] = 255"
proof -
  let ?img = "np_array (convert_RGB white_picture)"
  from white_preprocessed obtain batch
    where b: "preprocess_image ?img = Inr batch" and s: "shape batch = [1, 256, 256, 3]"
    by blast
  have shp: "shape ?img = [height white_picture, width white_picture, 3]"
    by (rule shape_np_array_convert_RGB)
  have all: "\<forall>i. valid_index (shape ?img) i \<longrightarrow> 255 \<le> item ?img i \<and> item ?img i \<le> 255"
    using white_samples by simp
  have v: "valid_index (shape batch) [0, 100, 17, 2]"
    by (simp add: s valid_index_def)
  from preprocess_image_keeps_sample_range
    [where img = ?img and batch = batch and lo = 255 and hi = 255
      and idx = "[0, 100, 17, 2]" and h = "height white_picture"
      and w = "width white_picture" and c = 3] shp b all v
  have "255 \<le> item batch [0, 100, 17, 2] \<and> item batch [0, 100, 17, 2] \<le> 255"
    by blast
  then have "item batch [0, 100, 17, 2] = 255" by simp
  with b s show ?thesis by blast
qed

text \<open>
  Claim C10. The batch that \<open>preprocess_image\<close> returns has float32 samples, for every
  input array: the resize converts. For a decoded image, whose samples are unsigned 8-bit,
  the model therefore receives float32 samples, still within 0 and 255.
\<close>

theorem preprocess_image_batch_is_float32:
  "(\<forall>batch. preprocess_image img = Inr batch \<longrightarrow> dtype batch = Float32) \<and>
   (read_file_as_image Image_open data = Inr decoded \<longrightarrow>
      dtype decoded = UInt8 \<and>
      (\<forall>batch. preprocess_image decoded = Inr batch \<longrightarrow>
         dtype batch = Float32 \<and>
         (\<forall>idx. valid_index (shape batch) idx \<longrightarrow>
            0 \<le> item batch idx \<and> item batch idx \<le> 255)))"
proof (intro conjI allI impI)
  fix batch assume "preprocess_image img = Inr batch"
  then show "dtype batch = Float32" by (rule preprocess_image_dtype)
next
  assume "read_file_as_image Image_open data = Inr decoded"
  then show "dtype decoded = UInt8"
    by (auto simp: read_file_as_image_Inr_iff dtype_np_array_convert_RGB)
next
  fix batch assume "preprocess_image decoded = Inr batch"
  then show "dtype batch = Float32" by (rule preprocess_image_dtype)
next
  fix batch idx
  assume "read_file_as_image Image_open data = Inr decoded"
    "preprocess_image decoded = Inr batch" "valid_index (shape batch) idx"
  from decoded_batch_range [OF this]
  show "0 \<le> item batch idx" "item batch idx \<le> 255" by simp_all
qed

theorem preprocess_image_batch_is_float32_witness:
  "read_file_as_image example_open [1] = Inr (np_array (convert_RGB grey_picture)) \<and>
   dtype (np_array (convert_RGB grey_picture)) = UInt8 \<and>
   (\<exists>batch. preprocess_image (np_array (convert_RGB grey_picture)) = Inr batch \<and>
      dtype batch = Float32)"
proof -
  from grey_preprocessed obtain batch
    where b: "preprocess_image (np_array (convert_RGB grey_picture)) = Inr batch" by blast
  from preprocess_image_batch_is_float32
    [where Image_open = example_open and data = "[1]"
      and decoded = "np_array (convert_RGB grey_picture)"] grey_decoded b
  have "dtype (np_array (convert_RGB grey_picture)) = UInt8 \<and> dtype batch = Float32"
    by blast
  with grey_decoded b show ?thesis by blast
qed

end
